theory Spec2Isabelle
  imports Main
begin

section \<open>Values shared by the route handlers of \<^verbatim>\<open>server.js\<close>\<close>

text \<open>
  Strings are lists of 8-bit characters: URLs, form fields and identifiers of the
  service are ASCII. A value produced by \<^verbatim>\<open>JSON.parse\<close> is a \<open>json\<close>; numbers are
  integers (the handlers only take lengths and counts of them).
\<close>

datatype json =
    JNull
  | JBool bool
  | JNum int
  | JStr string
  | JArr "json list"
  | JObj "(string \<times> json) list"

text \<open>JavaScript truthiness of a parsed value: \<^verbatim>\<open>null\<close>, \<^verbatim>\<open>false\<close>, \<^verbatim>\<open>0\<close> and \<^verbatim>\<open>""\<close> are falsy.\<close>

fun truthy :: "json \<Rightarrow> bool" where
  "truthy JNull = False"
| "truthy (JBool b) = b"
| "truthy (JNum n) = (n \<noteq> 0)"
| "truthy (JStr s) = (s \<noteq> [])"
| "truthy (JArr xs) = True"
| "truthy (JObj kvs) = True"

text \<open>
  A text field of a request (\<^verbatim>\<open>req.body.x\<close>, \<^verbatim>\<open>req.query.x\<close>, a header) is a string or
  absent (\<^verbatim>\<open>undefined\<close>); it is truthy when present and not empty.
\<close>

definition present :: "string option \<Rightarrow> bool" where
  "present v = (case v of None \<Rightarrow> False | Some s \<Rightarrow> s \<noteq> [])"

section \<open>\<^verbatim>\<open>getPublicId\<close>: the identifier inside an asset URL\<close>

text \<open>
  \<^verbatim>\<open>
  function getPublicId(url) {
    try {
      const cleanUrl = url.split("?")[0];
      const match = cleanUrl.match(/\/upload\/(?:v\d+\/)?(.+)\.\w+$/);
      if (!match) return null;
      return match[1];
    } catch (err) { ...; return null; }
  }
  \<close>
  The three copies of the function in the file are the same function. The regular
  expression is embedded as the backtracking matcher it denotes, one definition per
  piece of the pattern.
\<close>

definition is_digit :: "char \<Rightarrow> bool" where
  "is_digit c = (c \<in> set ''0123456789'')"

definition is_word :: "char \<Rightarrow> bool" where
  "is_word c =
     (c \<in> set ''abcdefghijklmnopqrstuvwxyzABCDEFGHIJKLMNOPQRSTUVWXYZ0123456789_'')"

text \<open>
  The characters \<^verbatim>\<open>.\<close> refuses. Among 8-bit characters these are line feed and
  carriage return (the other two, U+2028 and U+2029, are not 8-bit characters).
\<close>

definition is_line_terminator :: "char \<Rightarrow> bool" where
  "is_line_terminator c = (c = CHR 0x0A \<or> c = CHR 0x0D)"

text \<open>\<^verbatim>\<open>url.split("?")[0]\<close>: the text before the first question mark.\<close>

definition cleanUrl :: "string \<Rightarrow> string" where
  "cleanUrl url = takeWhile (\<lambda>c. c \<noteq> CHR ''?'') url"

text \<open>\<^verbatim>\<open>\.\w+$\<close>: a dot, then one or more word characters up to the end of the input.\<close>

definition match_extension :: "string \<Rightarrow> bool" where
  "match_extension s =
     (case s of [] \<Rightarrow> False | c # w \<Rightarrow> c = CHR ''.'' \<and> w \<noteq> [] \<and> list_all is_word w)"

text \<open>
  \<^verbatim>\<open>(.+)\.\w+$\<close>: the greedy \<^verbatim>\<open>.+\<close> first takes every character up to the first line
  terminator, then gives characters back one at a time until the rest is an extension;
  it keeps at least one character. \<open>match_capture k s\<close> tries the captures of length
  \<open>k\<close>, \<open>k - 1\<close>, ..., \<open>1\<close>.
\<close>

fun match_capture :: "nat \<Rightarrow> string \<Rightarrow> string option" where
  "match_capture 0 s = None"
| "match_capture (Suc k) s =
     (if match_extension (drop (Suc k) s) then Some (take (Suc k) s) else match_capture k s)"

definition match_name :: "string \<Rightarrow> string option" where
  "match_name s =
     match_capture (length (takeWhile (\<lambda>c. \<not> is_line_terminator c) s)) s"

text \<open>
  \<^verbatim>\<open>v\d+\/\<close>: the letter v, the longest run of digits (at least one) and a slash; the
  result is the text after the slash. Giving digits back cannot help: the character
  after a shorter run is a digit, not a slash.
\<close>

definition match_version :: "string \<Rightarrow> string option" where
  "match_version s =
     (case s of
        [] \<Rightarrow> None
      | c # r \<Rightarrow>
          if c = CHR ''v'' \<and> takeWhile is_digit r \<noteq> []
          then (case dropWhile is_digit r of
                  [] \<Rightarrow> None
                | d # r' \<Rightarrow> if d = CHR ''/'' then Some r' else None)
          else None)"

text \<open>
  \<^verbatim>\<open>(?:v\d+\/)?(.+)\.\w+$\<close>, the pattern after the marker: the optional group is
  tried first, and skipped when the rest does not match after it.
\<close>

definition match_rest :: "string \<Rightarrow> string option" where
  "match_rest s =
     (case match_version s of
        None \<Rightarrow> match_name s
      | Some r \<Rightarrow> (case match_name r of Some c \<Rightarrow> Some c | None \<Rightarrow> match_name s))"

text \<open>\<^verbatim>\<open>\/upload\/\<close> at the start of the text; the result is the text after it.\<close>

definition match_marker :: "string \<Rightarrow> string option" where
  "match_marker s = (if take 8 s = ''/upload/'' then Some (drop 8 s) else None)"

text \<open>The pattern is not anchored at the start: the leftmost position that matches wins.\<close>

fun regex_match :: "string \<Rightarrow> string option" where
  "regex_match [] = None"
| "regex_match (c # cs) =
     (case Option.bind (match_marker (c # cs)) match_rest of
        Some g \<Rightarrow> Some g
      | None \<Rightarrow> regex_match cs)"

text \<open>\<open>None\<close> is the \<^verbatim>\<open>null\<close> the function returns when nothing matches.\<close>

definition getPublicId :: "string \<Rightarrow> string option" where
  "getPublicId url = regex_match (cleanUrl url)"

section \<open>The external services\<close>

text \<open>
  The document store (MongoDB through Mongoose) and the asset host (Cloudinary) are
  outside the file. A handler is given what they hold or answer, and returns the status
  of its response together with what it wrote or the calls it made.
\<close>

text \<open>
  \<^verbatim>\<open>cloudinary.uploader.destroy(id)\<close> returns a promise: it resolves (the asset was deleted,
  or the host reports that there is none) or it rejects (the call failed).
\<close>

datatype destroy_result = Destroyed | NotFoundRemote | Rejected


text \<open>
  The calls an update or delete handler makes to the two services, with the identifier
  each is given; a handler returns them in the order it makes them.
\<close>

datatype call =
    FindById string
  | FindByIdAndUpdate string
  | FindByIdAndDelete string
  | Destroy string

text \<open>The identifiers given to \<^verbatim>\<open>cloudinary.uploader.destroy\<close> among the calls.\<close>

fun destroyed :: "call list \<Rightarrow> string list" where
  "destroyed [] = []"
| "destroyed (Destroy publicId # cs) = publicId # destroyed cs"
| "destroyed (c # cs) = destroyed cs"

section \<open>Admin: \<^verbatim>\<open>POST /api/admin/change-password\<close>\<close>

text \<open>The schema: \<^verbatim>\<open>username: { type: String, required: true, unique: true }\<close>,
  \<^verbatim>\<open>password: { type: String, required: true }\<close>.\<close>

record admin =
  username :: string
  password :: string

record change_password_request =
  authorization :: "string option"
  oldPassword :: "string option"
  newPassword :: "string option"

text \<open>\<^verbatim>\<open>s.split(c)\<close> for a separator of one character.\<close>

fun js_split :: "char \<Rightarrow> string \<Rightarrow> string list" where
  "js_split c [] = [[]]"
| "js_split c (x # xs) =
     (if x = c then [] # js_split c xs
      else (case js_split c xs of [] \<Rightarrow> [[x]] | y # ys \<Rightarrow> (x # y) # ys))"

text \<open>\<^verbatim>\<open>req.headers.authorization?.split(" ")[1]\<close>; \<open>None\<close> is \<^verbatim>\<open>undefined\<close>.\<close>

definition bearer_token :: "string option \<Rightarrow> string option" where
  "bearer_token h =
     (case h of
        None \<Rightarrow> None
      | Some v \<Rightarrow> (case js_split (CHR '' '') v of a # t # rest \<Rightarrow> Some t | _ \<Rightarrow> None))"

text \<open>
  \<^verbatim>\<open>
  const { oldPassword, newPassword } = req.body;
  const token = req.headers.authorization?.split(" ")[1];
  if (!token) return res.status(401).json({ error: "Unauthorized" });
  const decoded = jwt.verify(token, process.env.JWT_SECRET);
  const admin = await Admin.findById(decoded.id);
  if (!admin) return res.status(404).json({ error: "Admin not found" });
  if (admin.password !== oldPassword) {
    return res.status(400).json({ error: "Old password is incorrect" });
  }
  admin.password = newPassword;
  await admin.save();
  res.json({ message: "Password changed successfully" });
  \<close>
  inside \<^verbatim>\<open>try { ... } catch (err) { res.status(500)... }\<close>. \<open>verify\<close> is
  \<^verbatim>\<open>jwt.verify\<close> with the server's secret: the identifier in a token that is valid,
  \<open>None\<close> when it throws. The collection of admins is a map from identifiers to
  records. \<^verbatim>\<open>save\<close> validates against the schema: a password that is absent or empty
  is refused (\<^verbatim>\<open>required\<close>), the error is caught and nothing is written. The result is
  the status of the response and the collection afterwards.
\<close>

definition change_password ::
  "(string \<Rightarrow> string option) \<Rightarrow> (string \<rightharpoonup> admin) \<Rightarrow> change_password_request \<Rightarrow>
   nat \<times> (string \<rightharpoonup> admin)" where
  "change_password verify admins req =
     (if \<not> present (bearer_token (authorization req)) then (401, admins)
      else
        (case verify (the (bearer_token (authorization req))) of
           None \<Rightarrow> (500, admins)
         | Some aid \<Rightarrow>
             (case admins aid of
                None \<Rightarrow> (404, admins)
              | Some a \<Rightarrow>
                  if oldPassword req \<noteq> Some (password a) then (400, admins)
                  else if \<not> present (newPassword req) then (500, admins)
                  else (200, admins(aid \<mapsto> a\<lparr>password := the (newPassword req)\<rparr>)))))"

section \<open>Packages\<close>

text \<open>
  An activity of a package, with the properties the image handling reads and writes;
  \<open>imageCount\<close> is the optional count a create request may declare for it. A package
  with its image sets: the thumbnail, the main images and the images of each activity.
\<close>

record activity =
  act_name :: string
  imageCount :: "int option"
  act_images :: "string list"

record package =
  pkg_title :: string
  pkg_thumbnail :: "string option"
  pkg_images :: "string list"
  pkg_activities :: "activity list"

subsection \<open>\<^verbatim>\<open>POST /api/admin/packages\<close>: the JSON fields\<close>





subsection \<open>\<^verbatim>\<open>POST /api/admin/packages\<close>: the activity images\<close>

text \<open>\<^verbatim>\<open>xs.slice(start, end)\<close> on integers: a negative index counts from the end.\<close>

definition js_slice :: "int \<Rightarrow> int \<Rightarrow> 'a list \<Rightarrow> 'a list" where
  "js_slice start fin xs =
     (let len = int (length xs);
          k = (if start < 0 then max (len + start) 0 else min start len);
          final = (if fin < 0 then max (len + fin) 0 else min fin len)
      in take (nat (final - k)) (drop (nat k) xs))"

text \<open>\<^verbatim>\<open>act.imageCount || 1\<close>: an absent count and the count 0 are falsy.\<close>

definition image_count :: "activity \<Rightarrow> int" where
  "image_count act = (case imageCount act of None \<Rightarrow> 1 | Some n \<Rightarrow> if n = 0 then 1 else n)"

text \<open>
  \<^verbatim>\<open>
  if (data.activities && req.files.activityImages?.length) {
    let imgIdx = 0;
    data.activities.forEach((act) => {
      const count = act.imageCount || 1;
      act.images = req.files.activityImages.slice(imgIdx, imgIdx + count).map((f) => f.path);
      imgIdx += count;
    });
  }
  \<close>
  The activities are the parsed array of the request (\<open>None\<close> when the field is absent
  or empty), with counts that are integers when declared; \<open>files\<close> are the paths of
  the uploaded \<^verbatim>\<open>activityImages\<close>, in upload order.
\<close>

fun assign_from :: "int \<Rightarrow> string list \<Rightarrow> activity list \<Rightarrow> activity list" where
  "assign_from imgIdx files [] = []"
| "assign_from imgIdx files (act # acts) =
     act\<lparr>act_images := js_slice imgIdx (imgIdx + image_count act) files\<rparr>
       # assign_from (imgIdx + image_count act) files acts"

definition assign_activity_images :: "activity list option \<Rightarrow> string list \<Rightarrow> activity list option" where
  "assign_activity_images activities files =
     (case activities of
        None \<Rightarrow> None
      | Some acts \<Rightarrow> if files \<noteq> [] then Some (assign_from 0 files acts) else Some acts)"

subsection \<open>\<^verbatim>\<open>PUT /api/admin/packages/:id\<close>\<close>

text \<open>
  The request is a multipart form: the paths of the uploaded files of each field (none
  when the field is absent) and the parsed \<^verbatim>\<open>activities\<close> field, an array of objects of
  which the handler reads \<^verbatim>\<open>images\<close> (\<open>None\<close> when an object has none, and when the
  form has no \<^verbatim>\<open>activities\<close>).
\<close>

record activity_patch =
  patch_images :: "string list option"

record package_update_request =
  thumbnail_files :: "string list"
  image_files :: "string list"
  activity_files :: "string list"
  activities_field :: "activity_patch list option"

text \<open>\<^verbatim>\<open>data.activities?.[idx]?.images\<close>, and the length the handler takes of it.\<close>

definition declared_images :: "activity_patch list option \<Rightarrow> nat \<Rightarrow> string list" where
  "declared_images patches idx =
     (case patches of
        None \<Rightarrow> []
      | Some ps \<Rightarrow>
          if idx < length ps then (case patch_images (ps ! idx) of None \<Rightarrow> [] | Some imgs \<Rightarrow> imgs)
          else [])"

text \<open>
  \<^verbatim>\<open>
  data.activities = existingPackage.activities.map((act, idx) => {
    const existingImgs = act.images || [];
    let newImgs = [];
    if (data.activities?.[idx]?.images) { newImgs = data.activities[idx].images; }
    const uploadedFiles = req.files.activityImages || [];
    const count = uploadedFiles.splice(0, newImgs.length).map(f => f.path);
    return { ...act, ...data.activities?.[idx], images: [...existingImgs, ...count] };
  });
  \<close>
  \<^verbatim>\<open>splice\<close> removes what it returns from the uploaded files, so the files left are
  threaded through the loop. Of the merged object only \<^verbatim>\<open>images\<close> is modelled.
\<close>

fun merge_activities :: "nat \<Rightarrow> activity_patch list option \<Rightarrow> string list \<Rightarrow> activity list \<Rightarrow> activity list" where
  "merge_activities idx patches uploadedFiles [] = []"
| "merge_activities idx patches uploadedFiles (act # acts) =
     (let n = length (declared_images patches idx);
          count = take n uploadedFiles
      in act\<lparr>act_images := act_images act @ count\<rparr>
           # merge_activities (Suc idx) patches (drop n uploadedFiles) acts)"

text \<open>
  \<^verbatim>\<open>
  const existingPackage = await Destination.findById(req.params.id);
  if (!existingPackage) return res.status(404).json({ message: "Package not found" });
  ...
  if (req.files.thumbnail?.length) { data.thumbnail = req.files.thumbnail[0].path; }
  else { data.thumbnail = existingPackage.thumbnail; }
  if (req.files.images?.length) {
    data.images = [...(existingPackage.images || []), ...req.files.images.map(f => f.path)];
  } else { data.images = existingPackage.images; }
  ... (the activities, above)
  const updatedPackage = await Destination.findByIdAndUpdate(req.params.id, data, { new: true });
  res.json({ success: true, message: "Package updated successfully", package: updatedPackage });
  \<close>
  The result is the status, the image sets of the update given to the store and the
  calls made.
\<close>

record package_update =
  upd_thumbnail :: "string option"
  upd_images :: "string list"
  upd_activities :: "activity list"

record 'u update_outcome =
  status :: nat
  stored :: "'u option"
  calls :: "call list"

definition update_package ::
  "(string \<rightharpoonup> package) \<Rightarrow> string \<Rightarrow> package_update_request \<Rightarrow> package_update update_outcome" where
  "update_package packages pid req =
     (case packages pid of
        None \<Rightarrow> \<lparr>status = 404, stored = None, calls = [FindById pid]\<rparr>
      | Some existingPackage \<Rightarrow>
          \<lparr>status = 200,
           stored = Some
             \<lparr>upd_thumbnail =
                (if thumbnail_files req \<noteq> [] then Some (hd (thumbnail_files req))
                 else pkg_thumbnail existingPackage),
              upd_images =
                (if image_files req \<noteq> [] then pkg_images existingPackage @ image_files req
                 else pkg_images existingPackage),
              upd_activities =
                merge_activities 0 (activities_field req) (activity_files req)
                  (pkg_activities existingPackage)\<rparr>,
           calls = [FindById pid, FindByIdAndUpdate pid]\<rparr>)"

subsection \<open>\<^verbatim>\<open>DELETE /api/admin/packages/:id\<close>\<close>

text \<open>\<^verbatim>\<open>publicIds.filter(Boolean)\<close>: \<^verbatim>\<open>null\<close> and the empty string are dropped.\<close>

definition filter_Boolean :: "string option list \<Rightarrow> string list" where
  "filter_Boolean ids = map the (filter present ids)"

text \<open>
  \<^verbatim>\<open>
  const pkg = await Destination.findById(req.params.id);
  if (!pkg) return res.status(404).json({ message: "Package not found" });
  const publicIds = [];
  if (pkg.thumbnail) { publicIds.push(getPublicId(pkg.thumbnail)); }
  if (Array.isArray(pkg.images)) { pkg.images.forEach(url => publicIds.push(getPublicId(url))); }
  if (Array.isArray(pkg.activities)) {
    pkg.activities.forEach(act => {
      if (Array.isArray(act.images)) { act.images.forEach(url => publicIds.push(getPublicId(url))); }
    });
  }
  await Promise.all(publicIds.filter(Boolean).map(id => cloudinary.uploader.destroy(id)));
  await Destination.findByIdAndDelete(req.params.id);
  res.json({ success: true, message: "Package and images deleted" });
  \<close>
  inside \<^verbatim>\<open>try { ... } catch (err) { res.status(500)... }\<close>. Every call of
  \<^verbatim>\<open>destroy\<close> is made before \<^verbatim>\<open>Promise.all\<close> is awaited; the await throws when one of
  the promises rejects, and the record is then not deleted. The result is the status, the
  collection afterwards and the calls made.
\<close>

definition package_publicIds :: "package \<Rightarrow> string option list" where
  "package_publicIds pkg =
     (if present (pkg_thumbnail pkg) then [getPublicId (the (pkg_thumbnail pkg))] else [])
     @ map getPublicId (pkg_images pkg)
     @ concat (map (\<lambda>act. map getPublicId (act_images act)) (pkg_activities pkg))"

record 'd delete_outcome =
  del_status :: nat
  collection :: "string \<rightharpoonup> 'd"
  del_calls :: "call list"

definition delete_package ::
  "(string \<Rightarrow> destroy_result) \<Rightarrow> (string \<rightharpoonup> package) \<Rightarrow> string \<Rightarrow> package delete_outcome" where
  "delete_package destroy db pid =
     (case db pid of
        None \<Rightarrow> \<lparr>del_status = 404, collection = db, del_calls = [FindById pid]\<rparr>
      | Some pkg \<Rightarrow>
          (let ids = filter_Boolean (package_publicIds pkg)
           in if list_ex (\<lambda>i. destroy i = Rejected) ids
              then \<lparr>del_status = 500, collection = db,
                    del_calls = FindById pid # map Destroy ids\<rparr>
              else \<lparr>del_status = 200, collection = db(pid := None),
                    del_calls = FindById pid # map Destroy ids @ [FindByIdAndDelete pid]\<rparr>))"

subsection \<open>\<^verbatim>\<open>GET /api/packagesearch\<close>\<close>

record search_query =
  q_title :: "string option"
  q_minPrice :: "string option"
  q_maxPrice :: "string option"
  q_days :: "string option"

text \<open>
  The filter given to \<^verbatim>\<open>Destination.find\<close>: \<^verbatim>\<open>title: { $regex: t, $options: "i" }\<close>,
  \<^verbatim>\<open>price: { $gte: lo, $lte: hi }\<close> when present, \<^verbatim>\<open>days\<close> when present.
\<close>

record 'n search_filter =
  by_title :: string
  by_price :: "('n \<times> 'n) option"
  by_days :: "string option"

definition title_filter :: "string \<Rightarrow> 'n search_filter" where
  "title_filter t = \<lparr>by_title = t, by_price = None, by_days = None\<rparr>"

definition full_filter :: "(string \<Rightarrow> 'n) \<Rightarrow> search_query \<Rightarrow> 'n search_filter" where
  "full_filter Number q =
     \<lparr>by_title = the (q_title q),
      by_price =
        (if present (q_minPrice q) \<and> present (q_maxPrice q)
         then Some (Number (the (q_minPrice q)), Number (the (q_maxPrice q))) else None),
      by_days = (if present (q_days q) then q_days q else None)\<rparr>"

datatype 'p search_reply = Results "'p list" | ServerError

text \<open>
  \<^verbatim>\<open>
  const { title, minPrice, maxPrice, days } = req.query;
  if (!title) return res.json([]);
  let filter = { title: { $regex: title, $options: "i" } };
  if (minPrice && maxPrice) { filter.price = { $gte: Number(minPrice), $lte: Number(maxPrice) }; }
  if (days) { filter.days = days; }
  let results = await Destination.find(filter);
  if (results.length === 0) {
    results = await Destination.find({ title: { $regex: title, $options: "i" } });
  }
  res.json(results);
  \<close>
  inside \<^verbatim>\<open>try { ... } catch (err) { res.status(500)... }\<close>. \<open>find_packages\<close> is the
  store's answer to a filter (\<open>None\<close> when the query throws) and \<open>Number\<close> the conversion of
  a query string to a number. The result is the response and the filters given to
  the store, in order.
\<close>

definition packagesearch ::
  "(string \<Rightarrow> 'n) \<Rightarrow> ('n search_filter \<Rightarrow> 'p list option) \<Rightarrow> search_query \<Rightarrow>
   'p search_reply \<times> 'n search_filter list" where
  "packagesearch Number find_packages q =
     (if \<not> present (q_title q) then (Results [], [])
      else
        (case find_packages (full_filter Number q) of
           None \<Rightarrow> (ServerError, [full_filter Number q])
         | Some results \<Rightarrow>
             if length results = 0 then
               (case find_packages (title_filter (the (q_title q))) of
                  None \<Rightarrow> (ServerError, [full_filter Number q, title_filter (the (q_title q))])
                | Some fallback \<Rightarrow>
                    (Results fallback, [full_filter Number q, title_filter (the (q_title q))]))
             else (Results results, [full_filter Number q])))"

section \<open>Hotels\<close>

subsection \<open>\<^verbatim>\<open>PUT /api/admin/hotels/:id\<close>\<close>





subsection \<open>\<^verbatim>\<open>DELETE /api/admin/hotels/:id\<close>\<close>

text \<open>
  \<^verbatim>\<open>
  const hotel = await Hotel.findById(req.params.id);
  if (!hotel) return res.status(404).json({ message: "Hotel not found" });
  const publicIds = [];
  if (Array.isArray(hotel.images)) {
    hotel.images.forEach(url => {
      const publicId = getPublicId(url);
      if (publicId) publicIds.push(publicId);
    });
  }
  await Promise.all(publicIds.map(id => cloudinary.uploader.destroy(id)));
  await Hotel.findByIdAndDelete(req.params.id);
  res.json({ success: true, message: "Hotel and images deleted" });
  \<close>
  A hotel is the list of its image URLs.
\<close>

definition delete_hotel ::
  "(string \<Rightarrow> destroy_result) \<Rightarrow> (string \<rightharpoonup> string list) \<Rightarrow> string \<Rightarrow> (string list) delete_outcome" where
  "delete_hotel destroy db hid =
     (case db hid of
        None \<Rightarrow> \<lparr>del_status = 404, collection = db, del_calls = [FindById hid]\<rparr>
      | Some images \<Rightarrow>
          (let ids = filter_Boolean (map getPublicId images)
           in if list_ex (\<lambda>i. destroy i = Rejected) ids
              then \<lparr>del_status = 500, collection = db,
                    del_calls = FindById hid # map Destroy ids\<rparr>
              else \<lparr>del_status = 200, collection = db(hid := None),
                    del_calls = FindById hid # map Destroy ids @ [FindByIdAndDelete hid]\<rparr>))"

section \<open>Visas and flights: the records with one image\<close>

text \<open>
  \<^verbatim>\<open>
  const v = await Visa.findById(req.params.id);
  if (!v) return res.status(404).json({ success: false, message: "Visa not found" });
  if (v.image) {
    const publicId = getPublicId(v.image);
    if (publicId) await cloudinary.uploader.destroy(publicId);
  }
  await Visa.findByIdAndDelete(req.params.id);
  res.json({ success: true, message: "Visa deleted successfully" });
  \<close>
  inside \<^verbatim>\<open>try { ... } catch (err) { res.status(500)... }\<close>; the handler of
  \<^verbatim>\<open>DELETE /api/flight/:id\<close> is the same with \<^verbatim>\<open>flight.logo\<close>. A visa (a flight) is its
  optional image (logo) URL.
\<close>

definition single_publicId :: "string option \<Rightarrow> string option" where
  "single_publicId url =
     (if present url \<and> present (getPublicId (the url)) then getPublicId (the url) else None)"

definition delete_single ::
  "(string \<Rightarrow> destroy_result) \<Rightarrow> (string \<rightharpoonup> string option) \<Rightarrow> string \<Rightarrow> (string option) delete_outcome" where
  "delete_single destroy db rid =
     (case db rid of
        None \<Rightarrow> \<lparr>del_status = 404, collection = db, del_calls = [FindById rid]\<rparr>
      | Some url \<Rightarrow>
          (case single_publicId url of
             None \<Rightarrow>
               \<lparr>del_status = 200, collection = db(rid := None),
                del_calls = [FindById rid, FindByIdAndDelete rid]\<rparr>
           | Some publicId \<Rightarrow>
               if destroy publicId = Rejected
               then \<lparr>del_status = 500, collection = db,
                     del_calls = [FindById rid, Destroy publicId]\<rparr>
               else \<lparr>del_status = 200, collection = db(rid := None),
                     del_calls = [FindById rid, Destroy publicId, FindByIdAndDelete rid]\<rparr>))"

definition delete_visa ::
  "(string \<Rightarrow> destroy_result) \<Rightarrow> (string \<rightharpoonup> string option) \<Rightarrow> string \<Rightarrow> (string option) delete_outcome" where
  "delete_visa = delete_single"

definition delete_flight ::
  "(string \<Rightarrow> destroy_result) \<Rightarrow> (string \<rightharpoonup> string option) \<Rightarrow> string \<Rightarrow> (string option) delete_outcome" where
  "delete_flight = delete_single"

subsection \<open>\<^verbatim>\<open>POST /api/flights\<close> and \<^verbatim>\<open>PUT /api/flight/:id\<close>\<close>








section \<open>The reconciliation rule of the specification\<close>



fun spec_slices :: "nat list \<Rightarrow> 'a list \<Rightarrow> 'a list list" where
  "spec_slices [] batch = []"
| "spec_slices (c # cs) batch = take c batch # spec_slices cs (drop c batch)"

definition spec_count :: "nat option \<Rightarrow> nat" where
  "spec_count declared = (case declared of None \<Rightarrow> 1 | Some n \<Rightarrow> n)"


section \<open>Predicates and sample values used in the statements\<close>

text \<open>A version segment: the letter v, one or more digits and a slash.\<close>

definition version_segment :: "string \<Rightarrow> bool" where
  "version_segment v =
     (case v of
        [] \<Rightarrow> False
      | c # r \<Rightarrow> c = CHR ''v'' \<and> r \<noteq> [] \<and> last r = CHR ''/'' \<and>
                 butlast r \<noteq> [] \<and> list_all is_digit (butlast r))"

text \<open>Whether the marker \<^verbatim>\<open>/upload/\<close> occurs in a text.\<close>

fun has_marker :: "string \<Rightarrow> bool" where
  "has_marker [] = False"
| "has_marker (c # cs) = (match_marker (c # cs) \<noteq> None \<or> has_marker cs)"

text \<open>A token verifier that accepts one token, and a collection with one admin.\<close>

definition sample_verify :: "string \<Rightarrow> string option" where
  "sample_verify token = (if token = ''tok1'' then Some ''id1'' else None)"

definition sample_admins :: "string \<rightharpoonup> admin" where
  "sample_admins = [''id1'' \<mapsto> \<lparr>username = ''admin'', password = ''old''\<rparr>]"

text \<open>
  A store of two packages, given by their titles, for the examples of the search: no
  package matches a filter with a price range, both match a filter on the title alone.
  Prices are integers there and \<open>sample_Number\<close> reads the two amounts used.
\<close>

definition sample_Number :: "string \<Rightarrow> int" where
  "sample_Number s = (if s = ''1000'' then 1000 else if s = ''2000'' then 2000 else 0)"

definition sample_find :: "int search_filter \<Rightarrow> string list option" where
  "sample_find f =
     (if by_title f = ''Goa'' \<and> by_price f = None \<and> by_days f = None
      then Some [''Goa Beaches'', ''North Goa''] else Some [])"







text \<open>
  A stored package with one activity; an update request that uploads one activity image
  and declares nothing for the activity; a create request's activities with the counts
  absent, 2 and 0.
\<close>

definition sample_package :: package where
  "sample_package =
     \<lparr>pkg_title = ''Goa Beaches'',
      pkg_thumbnail = Some ''https://res.cloudinary.com/demo/image/upload/v17/destinations/thumb.jpg'',
      pkg_images = [''https://res.cloudinary.com/demo/image/upload/v17/destinations/main1.jpg''],
      pkg_activities =
        [\<lparr>act_name = ''Snorkelling'', imageCount = None,
          act_images = [''https://res.cloudinary.com/demo/image/upload/destinations/act0.png'']\<rparr>]\<rparr>"

definition sample_package_request :: package_update_request where
  "sample_package_request =
     \<lparr>thumbnail_files = [], image_files = [],
      activity_files = [''https://res.cloudinary.com/demo/image/upload/v18/destinations/new1.jpg''],
      activities_field = None\<rparr>"

definition sample_activities :: "activity list" where
  "sample_activities =
     [\<lparr>act_name = ''Snorkelling'', imageCount = None, act_images = []\<rparr>,
      \<lparr>act_name = ''Kayaking'', imageCount = Some 2, act_images = []\<rparr>,
      \<lparr>act_name = ''Trek'', imageCount = Some 0, act_images = []\<rparr>]"

text \<open>An asset host on which every deletion fails, and one on which every asset is unknown.\<close>

definition rejecting_destroy :: "string \<Rightarrow> destroy_result" where
  "rejecting_destroy publicId = Rejected"

definition unknown_destroy :: "string \<Rightarrow> destroy_result" where
  "unknown_destroy publicId = NotFoundRemote"

text \<open>A collection with one visa that has an image, and one whose image is not an asset URL.\<close>

definition sample_visas :: "string \<rightharpoonup> string option" where
  "sample_visas =
     [''visa1'' \<mapsto> Some ''https://res.cloudinary.com/demo/image/upload/v17/destinations/visa1.jpg'',
      ''visa2'' \<mapsto> Some ''https://example.com/visa2.jpg'']"




text \<open>
  The \<^verbatim>\<open>activities\<close> of an update request: the first declares two images, the second
  none.
\<close>

definition sample_patches :: "activity_patch list" where
  "sample_patches = [\<lparr>patch_images = Some [''x'', ''y'']\<rparr>, \<lparr>patch_images = None\<rparr>]"


section \<open>Identifier extraction\<close>

lemma not_word_dot: "\<not> is_word (CHR ''.'')"
  by (simp add: is_word_def)

lemma not_digit_slash: "\<not> is_digit (CHR ''/'')"
  by (simp add: is_digit_def)

lemma match_capture_sound:
  "match_capture k s = Some c \<Longrightarrow> c \<noteq> [] \<and> length c \<le> k \<and> (\<exists>e. s = c @ e \<and> match_extension e)"
proof (induction k)
  case 0
  then show ?case by simp
next
  case (Suc k)
  show ?case
  proof (cases "match_extension (drop (Suc k) s)")
    case True
    then have ne: "drop (Suc k) s \<noteq> []" by (auto simp: match_extension_def)
    then have len: "Suc k < length s" by simp
    from True Suc.prems have c: "c = take (Suc k) s" by simp
    have "s = take (Suc k) s @ drop (Suc k) s" by simp
    with True c len show ?thesis by (auto simp: min_def intro: exI[of _ "drop (Suc k) s"])
  next
    case False
    with Suc.prems have "match_capture k s = Some c" by simp
    from Suc.IH[OF this] show ?thesis by auto
  qed
qed

lemma match_extension_iff:
  "match_extension e \<longleftrightarrow> (\<exists>w. e = CHR ''.'' # w \<and> w \<noteq> [] \<and> list_all is_word w)"
  by (auto simp: match_extension_def split: list.splits)

lemma takeWhile_prefix_all:
  "length c \<le> length (takeWhile P (c @ e)) \<Longrightarrow> list_all P c"
  by (induction c) (auto split: if_splits)

lemma match_name_sound:
  assumes "match_name s = Some c"
  shows "c \<noteq> [] \<and> list_all (\<lambda>x. \<not> is_line_terminator x) c \<and>
         (\<exists>w. s = c @ CHR ''.'' # w \<and> w \<noteq> [] \<and> list_all is_word w)"
proof -
  from assms match_capture_sound
  obtain e where c: "c \<noteq> []" and le: "length c \<le> length (takeWhile (\<lambda>x. \<not> is_line_terminator x) s)"
    and s: "s = c @ e" and e: "match_extension e"
    unfolding match_name_def by blast
  from le s have "list_all (\<lambda>x. \<not> is_line_terminator x) c"
    using takeWhile_prefix_all by blast
  with c s e show ?thesis by (auto simp: match_extension_iff)
qed

lemma no_extension_in_word_suffix:
  assumes "list_all is_word w" "0 < n"
  shows "\<not> match_extension (drop n (CHR ''.'' # w))"
proof -
  from assms(2) obtain m where n: "n = Suc m" by (cases n) auto
  have "list_all is_word (drop m w)" using assms(1)
    by (metis append_take_drop_id list_all_append)
  then show ?thesis using not_word_dot
    by (cases "drop m w") (auto simp: n match_extension_def)
qed

lemma match_capture_complete:
  assumes "c \<noteq> []" "match_extension e" "e = CHR ''.'' # w" "list_all is_word w"
  shows "length c \<le> k \<Longrightarrow> match_capture k (c @ e) = Some c"
proof (induction k)
  case 0
  with assms show ?case by simp
next
  case (Suc k)
  show ?case
  proof (cases "length c = Suc k")
    case True
    then show ?thesis using assms by simp
  next
    case False
    with Suc.prems have le: "length c \<le> k" by simp
    then have "drop (Suc k) (c @ e) = drop (Suc k - length c) e" by simp
    moreover have "0 < Suc k - length c" using le by simp
    ultimately have "\<not> match_extension (drop (Suc k) (c @ e))"
      using no_extension_in_word_suffix[OF assms(4)] assms(3) by simp
    then show ?thesis using Suc.IH[OF le] by simp
  qed
qed

lemma takeWhile_length_ge:
  "list_all P c \<Longrightarrow> length c \<le> length (takeWhile P (c @ e))"
  by (induction c) auto

lemma match_name_complete:
  assumes "c \<noteq> []" "list_all (\<lambda>x. \<not> is_line_terminator x) c" "w \<noteq> []" "list_all is_word w"
  shows "match_name (c @ CHR ''.'' # w) = Some c"
proof -
  have "match_extension (CHR ''.'' # w)" using assms by (simp add: match_extension_def)
  then show ?thesis
    unfolding match_name_def
    using match_capture_complete[OF assms(1) _ refl assms(4)] takeWhile_length_ge[OF assms(2)]
    by blast
qed


lemma takeWhile_digits_slash:
  "list_all is_digit ds \<Longrightarrow> takeWhile is_digit (ds @ CHR ''/'' # r) = ds"
  using not_digit_slash by (induction ds) auto

lemma dropWhile_digits_slash:
  "list_all is_digit ds \<Longrightarrow> dropWhile is_digit (ds @ CHR ''/'' # r) = CHR ''/'' # r"
  using not_digit_slash by (induction ds) auto

lemma version_segment_intro:
  "ds \<noteq> [] \<Longrightarrow> list_all is_digit ds \<Longrightarrow> version_segment (CHR ''v'' # ds @ ''/'')"
  by (simp add: version_segment_def)

lemma version_segment_elim:
  assumes "version_segment v"
  shows "\<exists>ds. ds \<noteq> [] \<and> list_all is_digit ds \<and> v = CHR ''v'' # ds @ ''/''"
proof -
  from assms obtain r where v: "v = CHR ''v'' # r" and r: "r \<noteq> []" "last r = CHR ''/''"
    "butlast r \<noteq> []" "list_all is_digit (butlast r)"
    by (auto simp: version_segment_def split: list.splits)
  from r(1,2) have "r = butlast r @ ''/''" by (metis append_butlast_last_id)
  with v r show ?thesis by blast
qed

lemma match_version_sound:
  assumes "match_version s = Some r"
  shows "\<exists>v. version_segment v \<and> s = v @ r"
proof -
  from assms obtain t where s: "s = CHR ''v'' # t" and ne: "takeWhile is_digit t \<noteq> []"
    and d: "dropWhile is_digit t = CHR ''/'' # r"
    by (auto simp: match_version_def split: list.splits if_splits)
  have t: "t = takeWhile is_digit t @ CHR ''/'' # r"
    using d takeWhile_dropWhile_id[of is_digit t] by simp
  have "list_all is_digit (takeWhile is_digit t)"
    by (simp add: list_all_iff) (meson set_takeWhileD)
  with ne have "version_segment (CHR ''v'' # takeWhile is_digit t @ ''/'')"
    by (rule version_segment_intro)
  moreover have "s = (CHR ''v'' # takeWhile is_digit t @ ''/'') @ r"
    using s t by simp
  ultimately show ?thesis by blast
qed

lemma match_version_complete:
  assumes "version_segment v"
  shows "match_version (v @ r) = Some r"
proof -
  from version_segment_elim[OF assms] obtain ds where
    ds: "ds \<noteq> []" "list_all is_digit ds" and v: "v = CHR ''v'' # ds @ ''/''" by blast
  show ?thesis
    using ds by (simp add: v match_version_def takeWhile_digits_slash dropWhile_digits_slash)
qed

lemma match_version_none:
  "\<not> (\<exists>d r. s = CHR ''v'' # d # r \<and> is_digit d) \<Longrightarrow> match_version s = None"
  by (cases s; cases "tl s") (auto simp: match_version_def)

lemma match_rest_sound:
  assumes "match_rest s = Some c"
  shows "\<exists>v w. s = v @ c @ CHR ''.'' # w \<and> (v = [] \<or> version_segment v) \<and> c \<noteq> [] \<and>
           list_all (\<lambda>x. \<not> is_line_terminator x) c \<and> w \<noteq> [] \<and> list_all is_word w"
proof (cases "match_version s")
  case None
  with assms have "match_name s = Some c" by (simp add: match_rest_def)
  from match_name_sound[OF this] show ?thesis by (metis append_Nil)
next
  case (Some r)
  from match_version_sound[OF Some] obtain v where v: "version_segment v" "s = v @ r" by blast
  show ?thesis
  proof (cases "match_name r")
    case None
    with Some assms have "match_name s = Some c" by (simp add: match_rest_def)
    from match_name_sound[OF this] show ?thesis by (metis append_Nil)
  next
    case (Some c')
    with \<open>match_version s = Some r\<close> assms have "match_name r = Some c"
      by (simp add: match_rest_def)
    from match_name_sound[OF this] v show ?thesis by blast
  qed
qed

lemma match_marker_iff: "match_marker s = Some r \<longleftrightarrow> s = ''/upload/'' @ r"
proof
  assume "match_marker s = Some r"
  then have "take 8 s = ''/upload/''" "drop 8 s = r"
    by (auto simp: match_marker_def split: if_splits)
  then show "s = ''/upload/'' @ r" using append_take_drop_id[of 8 s] by metis
next
  assume "s = ''/upload/'' @ r"
  then show "match_marker s = Some r" by (simp add: match_marker_def)
qed

lemma regex_match_Cons:
  "regex_match (a # s) =
     (case Option.bind (match_marker (a # s)) match_rest of Some g \<Rightarrow> Some g | None \<Rightarrow> regex_match s)"
  by (simp only: regex_match.simps)

lemma regex_match_sound:
  "regex_match s = Some c \<Longrightarrow>
     \<exists>pre v w. s = pre @ ''/upload/'' @ v @ c @ CHR ''.'' # w \<and> (v = [] \<or> version_segment v) \<and>
        c \<noteq> [] \<and> list_all (\<lambda>x. \<not> is_line_terminator x) c \<and> w \<noteq> [] \<and> list_all is_word w"
proof (induction s)
  case Nil
  then show ?case by simp
next
  case (Cons a s)
  show ?case
  proof (cases "Option.bind (match_marker (a # s)) match_rest")
    case (Some g)
    with Cons.prems have g: "g = c" by (simp only: regex_match_Cons option.case option.inject)
    from Some obtain r where r: "match_marker (a # s) = Some r" and m: "match_rest r = Some g"
      by (auto simp: bind_eq_Some_conv)
    from r have "a # s = [] @ ''/upload/'' @ r" by (simp only: match_marker_iff append_Nil)
    with match_rest_sound[OF m] g show ?thesis by metis
  next
    case None
    with Cons.prems have "regex_match s = Some c"
      by (simp only: regex_match_Cons option.case)
    from Cons.IH[OF this] obtain pre v w where
      "s = pre @ ''/upload/'' @ v @ c @ CHR ''.'' # w" and rest: "(v = [] \<or> version_segment v) \<and>
        c \<noteq> [] \<and> list_all (\<lambda>x. \<not> is_line_terminator x) c \<and> w \<noteq> [] \<and> list_all is_word w"
      by blast
    then have "a # s = (a # pre) @ ''/upload/'' @ v @ c @ CHR ''.'' # w" by simp
    with rest show ?thesis by blast
  qed
qed

lemma regex_match_no_marker:
  "\<not> (\<exists>pre suf. s = pre @ ''/upload/'' @ suf) \<Longrightarrow> regex_match s = None"
proof (induction s)
  case Nil
  then show ?case by simp
next
  case (Cons a s)
  have 1: "match_marker (a # s) = None"
  proof (cases "match_marker (a # s)")
    case (Some r)
    then have "a # s = [] @ ''/upload/'' @ r" by (simp only: match_marker_iff append_Nil)
    with Cons.prems show ?thesis by blast
  qed simp
  have 2: "\<not> (\<exists>pre suf. s = pre @ ''/upload/'' @ suf)"
  proof
    assume "\<exists>pre suf. s = pre @ ''/upload/'' @ suf"
    then obtain pre suf where "s = pre @ ''/upload/'' @ suf" by blast
    then have "a # s = (a # pre) @ ''/upload/'' @ suf" by simp
    with Cons.prems show False by blast
  qed
  from 1 Cons.IH[OF 2] show ?case by (simp only: regex_match_Cons Option.bind.simps option.case)
qed

lemma regex_match_first:
  "\<not> (\<exists>a b. pre @ ''/upload'' = a @ ''/upload/'' @ b) \<Longrightarrow>
     match_rest rest = Some c \<Longrightarrow>
     regex_match (pre @ ''/upload/'' @ rest) = Some c"
proof (induction pre)
  case Nil
  have "match_marker (''/upload/'' @ rest) = Some rest" by (simp only: match_marker_iff)
  with Nil.prems(2) show ?case
    by (simp add: regex_match_Cons del: regex_match.simps)
next
  case (Cons p ps)
  have 1: "match_marker ((p # ps) @ ''/upload/'' @ rest) = None"
  proof (cases "match_marker ((p # ps) @ ''/upload/'' @ rest)")
    case (Some r)
    then have "(p # ps) @ ''/upload/'' @ rest = ''/upload/'' @ r"
      by (simp only: match_marker_iff)
    then have "((p # ps) @ ''/upload'') @ (CHR ''/'' # rest) = ''/upload/'' @ r" by simp
    then obtain us where
      "(p # ps) @ ''/upload'' = ''/upload/'' @ us \<or>
       (((p # ps) @ ''/upload'') @ us = ''/upload/'' \<and> CHR ''/'' # rest = us @ r)"
      unfolding append_eq_append_conv2 by blast
    then have "(p # ps) @ ''/upload'' = ''/upload/'' @ us"
    proof
      assume "((p # ps) @ ''/upload'') @ us = ''/upload/'' \<and> CHR ''/'' # rest = us @ r"
      then have e: "((p # ps) @ ''/upload'') @ us = ''/upload/''" by blast
      then have "length (((p # ps) @ ''/upload'') @ us) = length ''/upload/''" by (rule arg_cong)
      then have "us = []" by simp
      with e show ?thesis by simp
    qed
    then have "(p # ps) @ ''/upload'' = [] @ ''/upload/'' @ us" by simp
    with Cons.prems(1) show ?thesis by blast
  qed simp
  have 2: "\<not> (\<exists>a b. ps @ ''/upload'' = a @ ''/upload/'' @ b)"
  proof
    assume "\<exists>a b. ps @ ''/upload'' = a @ ''/upload/'' @ b"
    then obtain a b where "ps @ ''/upload'' = a @ ''/upload/'' @ b" by blast
    then have "(p # ps) @ ''/upload'' = (p # a) @ ''/upload/'' @ b" by simp
    with Cons.prems(1) show False by blast
  qed
  have "regex_match ((p # ps) @ ''/upload/'' @ rest) = regex_match (ps @ ''/upload/'' @ rest)"
    using 1 by (simp only: append_Cons regex_match_Cons Option.bind.simps option.case)
  with Cons.IH[OF 2 Cons.prems(2)] show ?case by simp
qed


lemma has_marker_iff: "has_marker s \<longleftrightarrow> (\<exists>a b. s = a @ ''/upload/'' @ b)"
proof (induction s)
  case Nil
  then show ?case by simp
next
  case (Cons c cs)
  show ?case
  proof
    assume "has_marker (c # cs)"
    then consider r where "match_marker (c # cs) = Some r" | "has_marker cs"
      by (auto simp del: match_marker_def)
    then show "\<exists>a b. c # cs = a @ ''/upload/'' @ b"
    proof cases
      case 1
      then have "c # cs = [] @ ''/upload/'' @ r" by (simp only: match_marker_iff append_Nil)
      then show ?thesis by blast
    next
      case 2
      with Cons.IH obtain a b where "cs = a @ ''/upload/'' @ b" by blast
      then have "c # cs = (c # a) @ ''/upload/'' @ b" by simp
      then show ?thesis by blast
    qed
  next
    assume "\<exists>a b. c # cs = a @ ''/upload/'' @ b"
    then obtain a b where ab: "c # cs = a @ ''/upload/'' @ b" by blast
    show "has_marker (c # cs)"
    proof (cases a)
      case Nil
      with ab have "match_marker (c # cs) = Some b" by (simp only: match_marker_iff append_Nil)
      then show ?thesis by (simp only: has_marker.simps) simp
    next
      case (Cons x xs)
      with ab have "cs = xs @ ''/upload/'' @ b" by simp
      with Cons.IH have "has_marker cs" by blast
      then show ?thesis by (simp only: has_marker.simps) simp
    qed
  qed
qed

lemma cleanUrl_strips:
  "CHR ''?'' \<notin> set (cleanUrl url) \<and>
   (\<exists>q. url = cleanUrl url @ q \<and> (q = [] \<or> hd q = CHR ''?''))"
proof -
  have 1: "CHR ''?'' \<notin> set (cleanUrl url)"
    unfolding cleanUrl_def by (auto dest: set_takeWhileD)
  have 2: "url = cleanUrl url @ dropWhile (\<lambda>c. c \<noteq> CHR ''?'') url"
    unfolding cleanUrl_def by simp
  have 3: "dropWhile (\<lambda>c. c \<noteq> CHR ''?'') url = [] \<or> hd (dropWhile (\<lambda>c. c \<noteq> CHR ''?'') url) = CHR ''?''"
    using hd_dropWhile[of "\<lambda>c. c \<noteq> CHR ''?''" url] by blast
  from 1 2 3 show ?thesis by blast
qed

text \<open>
  C4. \<open>getPublicId\<close> works on the URL with its query string removed. When it returns an
  identifier, the URL (without the query) is some text, the marker \<^verbatim>\<open>/upload/\<close>, an
  optional version segment, the identifier, a dot and a final extension of word
  characters. Conversely, for a URL of that shape whose marker is the first in the URL
  and whose identifier has no line break (and does not itself start with a version
  segment when the URL has none), it returns exactly the identifier. A URL without
  the marker yields no identifier, and
  \<^verbatim>\<open>https://host/upload/v123/destinations/abc123.jpg?x=1\<close> yields
  \<^verbatim>\<open>destinations/abc123\<close>.
\<close>

theorem getPublicId_extracts:
  "CHR ''?'' \<notin> set (cleanUrl url) \<and>
   (\<exists>q. url = cleanUrl url @ q \<and> (q = [] \<or> hd q = CHR ''?'')) \<and>
   (getPublicId url = Some ident \<longrightarrow>
      (\<exists>pre v ext. cleanUrl url = pre @ ''/upload/'' @ v @ ident @ ''.'' @ ext \<and>
         (v = [] \<or> version_segment v) \<and> ident \<noteq> [] \<and> ext \<noteq> [] \<and> list_all is_word ext)) \<and>
   (cleanUrl url = pre @ ''/upload/'' @ v @ ident @ ''.'' @ ext \<and>
    (\<nexists>a b. pre @ ''/upload'' = a @ ''/upload/'' @ b) \<and>
    (version_segment v \<or> v = [] \<and> (\<nexists>d r. ident = CHR ''v'' # d # r \<and> is_digit d)) \<and>
    ident \<noteq> [] \<and> list_all (\<lambda>c. \<not> is_line_terminator c) ident \<and>
    ext \<noteq> [] \<and> list_all is_word ext \<longrightarrow>
      getPublicId url = Some ident) \<and>
   ((\<nexists>a b. cleanUrl url = a @ ''/upload/'' @ b) \<longrightarrow> getPublicId url = None) \<and>
   getPublicId ''https://host/upload/v123/destinations/abc123.jpg?x=1'' = Some ''destinations/abc123''"
proof (intro conjI impI)
  show "CHR ''?'' \<notin> set (cleanUrl url)" using cleanUrl_strips by blast
  show "\<exists>q. url = cleanUrl url @ q \<and> (q = [] \<or> hd q = CHR ''?'')" using cleanUrl_strips by blast
next
  assume "getPublicId url = Some ident"
  then have "regex_match (cleanUrl url) = Some ident" by (simp add: getPublicId_def)
  from regex_match_sound[OF this] obtain pre v w where
    "cleanUrl url = pre @ ''/upload/'' @ v @ ident @ CHR ''.'' # w"
    "v = [] \<or> version_segment v" "ident \<noteq> []" "w \<noteq> []" "list_all is_word w" by blast
  then show "\<exists>pre v ext. cleanUrl url = pre @ ''/upload/'' @ v @ ident @ ''.'' @ ext \<and>
         (v = [] \<or> version_segment v) \<and> ident \<noteq> [] \<and> ext \<noteq> [] \<and> list_all is_word ext"
    by auto
next
  assume a: "cleanUrl url = pre @ ''/upload/'' @ v @ ident @ ''.'' @ ext \<and>
    (\<nexists>a b. pre @ ''/upload'' = a @ ''/upload/'' @ b) \<and>
    (version_segment v \<or> v = [] \<and> (\<nexists>d r. ident = CHR ''v'' # d # r \<and> is_digit d)) \<and>
    ident \<noteq> [] \<and> list_all (\<lambda>c. \<not> is_line_terminator c) ident \<and>
    ext \<noteq> [] \<and> list_all is_word ext"
  then have name: "match_name (ident @ CHR ''.'' # ext) = Some ident"
    using match_name_complete by blast
  have "match_rest (v @ ident @ CHR ''.'' # ext) = Some ident"
  proof (cases "version_segment v")
    case True
    from match_version_complete[OF True] name show ?thesis
      by (simp add: match_rest_def)
  next
    case False
    with a have v: "v = []" and nv: "\<nexists>d r. ident = CHR ''v'' # d # r \<and> is_digit d" by blast+
    have "\<not> (\<exists>d r. ident @ CHR ''.'' # ext = CHR ''v'' # d # r \<and> is_digit d)"
    proof
      assume "\<exists>d r. ident @ CHR ''.'' # ext = CHR ''v'' # d # r \<and> is_digit d"
      then obtain d r where e: "ident @ CHR ''.'' # ext = CHR ''v'' # d # r" and d: "is_digit d"
        by blast
      from a have "ident \<noteq> []" by blast
      then obtain x xs where i: "ident = x # xs" by (cases ident) auto
      show False
      proof (cases xs)
        case Nil
        with e i have "d = CHR ''.''" by simp
        with d show False by (simp add: is_digit_def)
      next
        case (Cons y ys)
        with e i have "ident = CHR ''v'' # d # ys" by simp
        with nv d show False by blast
      qed
    qed
    from match_version_none[OF this] name v show ?thesis by (simp add: match_rest_def)
  qed
  with a have "regex_match (pre @ ''/upload/'' @ v @ ident @ CHR ''.'' # ext) = Some ident"
    using regex_match_first by blast
  with a show "getPublicId url = Some ident" by (simp add: getPublicId_def)
next
  assume "\<nexists>a b. cleanUrl url = a @ ''/upload/'' @ b"
  from regex_match_no_marker[OF this] show "getPublicId url = None" by (simp add: getPublicId_def)
next
  show "getPublicId ''https://host/upload/v123/destinations/abc123.jpg?x=1'' = Some ''destinations/abc123''"
    by code_simp
qed

theorem getPublicId_extracts_witness:
  "getPublicId ''https://host/upload/v123/destinations/abc123.jpg?x=1'' = Some ''destinations/abc123'' \<and>
   cleanUrl ''https://host/upload/v123/destinations/abc123.jpg?x=1'' =
     ''https://host'' @ ''/upload/'' @ ''v123/'' @ ''destinations/abc123'' @ ''.'' @ ''jpg'' \<and>
   version_segment ''v123/'' \<and>
   (\<nexists>a b. ''https://host'' @ ''/upload'' = a @ ''/upload/'' @ b) \<and>
   (\<exists>pre v ext. cleanUrl ''https://host/upload/v123/destinations/abc123.jpg?x=1'' =
       pre @ ''/upload/'' @ v @ ''destinations/abc123'' @ ''.'' @ ext \<and>
       (v = [] \<or> version_segment v) \<and> ext \<noteq> [] \<and> list_all is_word ext) \<and>
   (\<nexists>a b. cleanUrl ''https://host/a.jpg?u=/upload/b.jpg'' = a @ ''/upload/'' @ b) \<and>
   getPublicId ''https://host/a.jpg?u=/upload/b.jpg'' = None"
proof -
  let ?u = "''https://host/upload/v123/destinations/abc123.jpg?x=1''"
  let ?n = "''https://host/a.jpg?u=/upload/b.jpg''"
  have clean: "cleanUrl ?u = ''https://host'' @ ''/upload/'' @ ''v123/'' @ ''destinations/abc123'' @ ''.'' @ ''jpg''"
    by (simp add: cleanUrl_def)
  have ver: "version_segment ''v123/''" by (simp add: version_segment_def is_digit_def)
  have "\<not> has_marker (''https://host'' @ ''/upload'')" by code_simp
  then have first: "\<nexists>a b. ''https://host'' @ ''/upload'' = a @ ''/upload/'' @ b"
    using has_marker_iff by blast
  have "\<not> has_marker (cleanUrl ?n)" by code_simp
  then have nomark: "\<nexists>a b. cleanUrl ?n = a @ ''/upload/'' @ b"
    using has_marker_iff by blast
  have word: "list_all is_word ''jpg''" by (simp add: is_word_def)
  have nolt: "list_all (\<lambda>c. \<not> is_line_terminator c) ''destinations/abc123''"
    by (simp add: is_line_terminator_def)
  have get: "getPublicId ?u = Some ''destinations/abc123''"
    using getPublicId_extracts[of ?u "''destinations/abc123''" "''https://host''" "''v123/''" "''jpg''"]
      clean ver first word nolt by blast
  have shape: "\<exists>pre v ext. cleanUrl ?u = pre @ ''/upload/'' @ v @ ''destinations/abc123'' @ ''.'' @ ext \<and>
       (v = [] \<or> version_segment v) \<and> ext \<noteq> [] \<and> list_all is_word ext"
    using getPublicId_extracts[of ?u "''destinations/abc123''"] get by blast
  have none: "getPublicId ?n = None"
    using getPublicId_extracts[of ?n] nomark by blast
  from get clean ver first shape nomark none show ?thesis by blast
qed


section \<open>Change of the admin password\<close>

text \<open>
  C8. Without a token the answer is 401, with a token that does not verify 500, with an
  old password that differs from the stored one 400; in each case the collection of
  admins is unchanged. With a valid token of a stored admin, the stored password as
  old password and a new password that is not empty, the answer is 200 and the stored
  password is the new password, as given. The answer is 200 only in that case, and
  whenever it is not 200 the collection is unchanged.
\<close>

theorem change_password_checks:
  "(\<not> present (bearer_token (authorization req)) \<longrightarrow>
      change_password verify admins req = (401, admins)) \<and>
   (bearer_token (authorization req) = Some token \<and> token \<noteq> [] \<and> verify token = None \<longrightarrow>
      change_password verify admins req = (500, admins)) \<and>
   (bearer_token (authorization req) = Some token \<and> token \<noteq> [] \<and> verify token = Some aid \<and>
    admins aid = Some a \<and> oldPassword req \<noteq> Some (password a) \<longrightarrow>
      change_password verify admins req = (400, admins)) \<and>
   (bearer_token (authorization req) = Some token \<and> token \<noteq> [] \<and> verify token = Some aid \<and>
    admins aid = Some a \<and> oldPassword req = Some (password a) \<and>
    newPassword req = Some new \<and> new \<noteq> [] \<longrightarrow>
      change_password verify admins req = (200, admins(aid \<mapsto> a\<lparr>password := new\<rparr>))) \<and>
   (fst (change_password verify admins req) = 200 \<longrightarrow>
      (\<exists>t i b n. bearer_token (authorization req) = Some t \<and> t \<noteq> [] \<and> verify t = Some i \<and>
         admins i = Some b \<and> oldPassword req = Some (password b) \<and> newPassword req = Some n \<and>
         snd (change_password verify admins req) = admins(i \<mapsto> b\<lparr>password := n\<rparr>))) \<and>
   (fst (change_password verify admins req) \<noteq> 200 \<longrightarrow>
      snd (change_password verify admins req) = admins)"
proof (intro conjI impI)
  assume "\<not> present (bearer_token (authorization req))"
  then show "change_password verify admins req = (401, admins)"
    by (simp add: change_password_def)
next
  assume "bearer_token (authorization req) = Some token \<and> token \<noteq> [] \<and> verify token = None"
  then show "change_password verify admins req = (500, admins)"
    by (simp add: change_password_def present_def)
next
  assume "bearer_token (authorization req) = Some token \<and> token \<noteq> [] \<and> verify token = Some aid \<and>
    admins aid = Some a \<and> oldPassword req \<noteq> Some (password a)"
  then show "change_password verify admins req = (400, admins)"
    by (simp add: change_password_def present_def)
next
  assume "bearer_token (authorization req) = Some token \<and> token \<noteq> [] \<and> verify token = Some aid \<and>
    admins aid = Some a \<and> oldPassword req = Some (password a) \<and>
    newPassword req = Some new \<and> new \<noteq> []"
  then show "change_password verify admins req = (200, admins(aid \<mapsto> a\<lparr>password := new\<rparr>))"
    by (simp add: change_password_def present_def)
next
  assume ok: "fst (change_password verify admins req) = 200"
  then show "\<exists>t i b n. bearer_token (authorization req) = Some t \<and> t \<noteq> [] \<and> verify t = Some i \<and>
         admins i = Some b \<and> oldPassword req = Some (password b) \<and> newPassword req = Some n \<and>
         snd (change_password verify admins req) = admins(i \<mapsto> b\<lparr>password := n\<rparr>)"
    by (auto simp: change_password_def present_def split: option.splits if_splits)
next
  assume "fst (change_password verify admins req) \<noteq> 200"
  then show "snd (change_password verify admins req) = admins"
    by (auto simp: change_password_def split: option.splits if_splits)
qed

theorem change_password_checks_witness:
  "change_password sample_verify sample_admins
     \<lparr>authorization = None, oldPassword = Some ''old'', newPassword = Some ''new''\<rparr> = (401, sample_admins) \<and>
   change_password sample_verify sample_admins
     \<lparr>authorization = Some ''Bearer forged'', oldPassword = Some ''old'', newPassword = Some ''new''\<rparr> = (500, sample_admins) \<and>
   change_password sample_verify sample_admins
     \<lparr>authorization = Some ''Bearer tok1'', oldPassword = Some ''Old'', newPassword = Some ''new''\<rparr> = (400, sample_admins) \<and>
   change_password sample_verify sample_admins
     \<lparr>authorization = Some ''Bearer tok1'', oldPassword = Some ''old'', newPassword = Some ''new''\<rparr> =
     (200, sample_admins(''id1'' \<mapsto> \<lparr>username = ''admin'', password = ''new''\<rparr>)) \<and>
   fst (change_password sample_verify sample_admins
     \<lparr>authorization = Some ''Bearer tok1'', oldPassword = Some ''old'', newPassword = Some ''''\<rparr>) = 500 \<and>
   snd (change_password sample_verify sample_admins
     \<lparr>authorization = Some ''Bearer tok1'', oldPassword = Some ''old'', newPassword = Some ''''\<rparr>) = sample_admins"
proof -
  let ?r0 = "\<lparr>authorization = None, oldPassword = Some ''old'', newPassword = Some ''new''\<rparr>"
  let ?r1 = "\<lparr>authorization = Some ''Bearer forged'', oldPassword = Some ''old'', newPassword = Some ''new''\<rparr>"
  let ?r2 = "\<lparr>authorization = Some ''Bearer tok1'', oldPassword = Some ''Old'', newPassword = Some ''new''\<rparr>"
  let ?r3 = "\<lparr>authorization = Some ''Bearer tok1'', oldPassword = Some ''old'', newPassword = Some ''new''\<rparr>"
  let ?r4 = "\<lparr>authorization = Some ''Bearer tok1'', oldPassword = Some ''old'', newPassword = Some ''''\<rparr>"
  let ?a = "\<lparr>username = ''admin'', password = ''old''\<rparr>"
  have 0: "change_password sample_verify sample_admins ?r0 = (401, sample_admins)"
    using change_password_checks[of ?r0 sample_verify sample_admins]
    by (simp add: bearer_token_def present_def)
  have 1: "change_password sample_verify sample_admins ?r1 = (500, sample_admins)"
    using change_password_checks[of ?r1 sample_verify sample_admins "''forged''"]
    by (simp add: bearer_token_def sample_verify_def)
  have 2: "change_password sample_verify sample_admins ?r2 = (400, sample_admins)"
    using change_password_checks[of ?r2 sample_verify sample_admins "''tok1''" "''id1''" ?a]
    by (simp add: bearer_token_def sample_verify_def sample_admins_def)
  have 3: "change_password sample_verify sample_admins ?r3 =
      (200, sample_admins(''id1'' \<mapsto> \<lparr>username = ''admin'', password = ''new''\<rparr>))"
    using change_password_checks[of ?r3 sample_verify sample_admins "''tok1''" "''id1''" ?a "''new''"]
    by (simp add: bearer_token_def sample_verify_def sample_admins_def)
  have 4: "fst (change_password sample_verify sample_admins ?r4) = 500"
    by (simp add: change_password_def bearer_token_def sample_verify_def sample_admins_def present_def)
  then have 5: "snd (change_password sample_verify sample_admins ?r4) = sample_admins"
    using change_password_checks[of ?r4 sample_verify sample_admins] by simp
  from 0 1 2 3 4 5 show ?thesis by blast
qed


section \<open>Package search\<close>

text \<open>
  C9. When the \<^verbatim>\<open>title\<close> parameter is absent or empty, the search answers the empty array
  and asks the store nothing, whatever the other parameters are.
\<close>

theorem packagesearch_without_title:
  "\<not> present (q_title q) \<Longrightarrow> packagesearch Number find_packages q = (Results [], [])"
  by (simp add: packagesearch_def)

theorem packagesearch_without_title_witness:
  "\<not> present (q_title \<lparr>q_title = None, q_minPrice = Some ''1000'', q_maxPrice = Some ''2000'',
                          q_days = Some ''5''\<rparr>) \<and>
   packagesearch sample_Number sample_find
     \<lparr>q_title = None, q_minPrice = Some ''1000'', q_maxPrice = Some ''2000'', q_days = Some ''5''\<rparr> =
     (Results [], []) \<and>
   packagesearch sample_Number sample_find
     \<lparr>q_title = Some '''', q_minPrice = Some ''1000'', q_maxPrice = Some ''2000'', q_days = None\<rparr> =
     (Results [], [])"
proof -
  let ?q = "\<lparr>q_title = None, q_minPrice = Some ''1000'', q_maxPrice = Some ''2000'', q_days = Some ''5''\<rparr>"
  let ?e = "\<lparr>q_title = Some '''', q_minPrice = Some ''1000'', q_maxPrice = Some ''2000'', q_days = None\<rparr>"
  have a: "\<not> present (q_title ?q)" by (simp add: present_def)
  have b: "\<not> present (q_title ?e)" by (simp add: present_def)
  from a b packagesearch_without_title[OF a, of sample_Number sample_find]
    packagesearch_without_title[OF b, of sample_Number sample_find]
  show ?thesis by simp
qed




section \<open>Flights\<close>



section \<open>Malformed JSON in a create request\<close>










section \<open>Activity images\<close>

lemma js_slice_front:
  assumes "0 \<le> i" "0 \<le> c"
  shows "js_slice i (i + c) xs = take (nat c) (drop (nat i) xs)"
proof (cases "i \<le> int (length xs)")
  case True
  with assms have "js_slice i (i + c) xs =
      take (nat (min (i + c) (int (length xs)) - i)) (drop (nat i) xs)"
    by (simp add: js_slice_def Let_def min_def)
  also have "\<dots> = take (nat c) (drop (nat i) xs)"
  proof (cases "i + c \<le> int (length xs)")
    case True
    then show ?thesis by (simp add: min_def)
  next
    case False
    with \<open>i \<le> int (length xs)\<close> assms have "length (drop (nat i) xs) \<le> nat c"
      and "length (drop (nat i) xs) \<le> nat (min (i + c) (int (length xs)) - i)"
      by (simp_all add: min_def)
    then show ?thesis by simp
  qed
  finally show ?thesis .
next
  case False
  with assms show ?thesis by (simp add: js_slice_def Let_def min_def)
qed

lemma assign_from_slices:
  "0 \<le> i \<Longrightarrow> list_all (\<lambda>a. 0 \<le> image_count a) acts \<Longrightarrow>
     map act_images (assign_from i files acts) =
       spec_slices (map (\<lambda>a. nat (image_count a)) acts) (drop (nat i) files)"
proof (induction acts arbitrary: i)
  case Nil
  then show ?case by simp
next
  case (Cons a acts)
  from Cons.prems have c: "0 \<le> image_count a" and rest: "list_all (\<lambda>a. 0 \<le> image_count a) acts"
    by simp_all
  from Cons.prems(1) c have i': "0 \<le> i + image_count a" by simp
  have d: "drop (nat (i + image_count a)) files = drop (nat (image_count a)) (drop (nat i) files)"
    using Cons.prems(1) c by (simp add: nat_add_distrib add.commute)
  show ?case
    using Cons.IH[OF i' rest] js_slice_front[OF Cons.prems(1) c, of files] d by simp
qed

lemma merge_activities_slices:
  "map act_images (merge_activities idx patches files acts) =
     map2 (@) (map act_images acts)
       (spec_slices (map (\<lambda>i. length (declared_images patches i)) [idx..<idx + length acts]) files)"
proof (induction acts arbitrary: idx files)
  case Nil
  then show ?case by simp
next
  case (Cons a acts)
  have u: "[idx..<idx + length (a # acts)] = idx # [Suc idx..<Suc idx + length acts]"
    by (simp add: upt_rec)
  show ?case
    by (simp only: u) (simp add: Let_def Cons.IH)
qed

lemma positive_count:
  "(case imageCount a of None \<Rightarrow> True | Some n \<Rightarrow> 0 < n) \<Longrightarrow>
     image_count a = int (spec_count (map_option nat (imageCount a)))"
  by (auto simp: image_count_def spec_count_def split: option.splits)

lemma positive_counts:
  "list_all (\<lambda>a. case imageCount a of None \<Rightarrow> True | Some n \<Rightarrow> 0 < n) acts \<Longrightarrow>
     list_all (\<lambda>a. 0 \<le> image_count a) acts \<and>
     map (\<lambda>a. nat (image_count a)) acts = map (\<lambda>a. spec_count (map_option nat (imageCount a))) acts"
  by (induction acts) (simp_all add: positive_count)

text \<open>
  C7, as the code has it. On create, when activities are given and at least one activity
  image is uploaded, the activities are taken in the order of the array and each receives
  the next images of the batch, as many as its count (fewer when the batch runs out); the
  count is the declared \<^verbatim>\<open>imageCount\<close>, a positive integer, and 1 when none is declared.
  Without uploaded activity images the activities are left as they are. On update, the
  stored activities are taken in order and each appends to its images the next files of
  the batch, as many as the request declares images for the activity at the same index:
  none when it declares nothing.
\<close>

theorem activity_images_slicing:
  "(files \<noteq> [] \<and> list_all (\<lambda>a. case imageCount a of None \<Rightarrow> True | Some n \<Rightarrow> 0 < n) acts \<longrightarrow>
      map_option (map act_images) (assign_activity_images (Some acts) files) =
        Some (spec_slices (map (\<lambda>a. spec_count (map_option nat (imageCount a))) acts) files)) \<and>
   assign_activity_images (Some acts) [] = Some acts \<and>
   assign_activity_images None files = None \<and>
   map act_images (merge_activities 0 patches files stored_acts) =
     map2 (@) (map act_images stored_acts)
       (spec_slices (map (\<lambda>i. length (declared_images patches i)) [0..<length stored_acts]) files) \<and>
   declared_images None idx = [] \<and>
   (idx < length ps \<and> patch_images (ps ! idx) = Some imgs \<longrightarrow> declared_images (Some ps) idx = imgs) \<and>
   (idx < length ps \<and> patch_images (ps ! idx) = None \<or> length ps \<le> idx \<longrightarrow>
      declared_images (Some ps) idx = [])"
proof (intro conjI impI)
  assume a: "files \<noteq> [] \<and> list_all (\<lambda>a. case imageCount a of None \<Rightarrow> True | Some n \<Rightarrow> 0 < n) acts"
  then have nn: "list_all (\<lambda>a. 0 \<le> image_count a) acts"
    and m: "map (\<lambda>a. nat (image_count a)) acts = map (\<lambda>a. spec_count (map_option nat (imageCount a))) acts"
    using positive_counts by blast+
  have e: "map act_images (assign_from 0 files acts) =
      spec_slices (map (\<lambda>a. nat (image_count a)) acts) files"
    using assign_from_slices[OF _ nn, of 0 files] by simp
  have "assign_activity_images (Some acts) files = Some (assign_from 0 files acts)"
    using a by (simp add: assign_activity_images_def)
  then show "map_option (map act_images) (assign_activity_images (Some acts) files) =
        Some (spec_slices (map (\<lambda>a. spec_count (map_option nat (imageCount a))) acts) files)"
    by (simp only: option.map e m)
next
  show "map act_images (merge_activities 0 patches files stored_acts) =
     map2 (@) (map act_images stored_acts)
       (spec_slices (map (\<lambda>i. length (declared_images patches i)) [0..<length stored_acts]) files)"
    using merge_activities_slices[of 0 patches files stored_acts] by simp
qed (auto simp: assign_activity_images_def declared_images_def)

theorem activity_images_slicing_witness:
  "list_all (\<lambda>a. case imageCount a of None \<Rightarrow> True | Some n \<Rightarrow> 0 < n) (take 2 sample_activities) \<and>
   map_option (map act_images)
     (assign_activity_images (Some (take 2 sample_activities)) [''a'', ''b'', ''c'', ''d'', ''e'']) =
     Some [[''a''], [''b'', ''c'']] \<and>
   declared_images (Some sample_patches) 0 = [''x'', ''y''] \<and>
   declared_images (Some sample_patches) 1 = [] \<and>
   declared_images (Some sample_patches) 2 = [] \<and>
   map act_images (merge_activities 0 (Some sample_patches) [''f1'', ''f2'', ''f3''] sample_activities) =
     [[''f1'', ''f2''], [], []]"
proof -
  have pos: "list_all (\<lambda>a. case imageCount a of None \<Rightarrow> True | Some n \<Rightarrow> 0 < n) (take 2 sample_activities)"
    by (simp add: sample_activities_def)
  have cs: "map (\<lambda>a. spec_count (map_option nat (imageCount a))) (take 2 sample_activities) = [1, 2]"
    by (simp add: sample_activities_def spec_count_def)
  have sl: "spec_slices [1, 2] [''a'', ''b'', ''c'', ''d'', ''e''] = [[''a''], [''b'', ''c'']]"
    by code_simp
  have p: "length sample_patches = 2" "patch_images (sample_patches ! 0) = Some [''x'', ''y'']"
    "patch_images (sample_patches ! 1) = None"
    by (simp_all add: sample_patches_def)
  have 1: "map_option (map act_images)
      (assign_activity_images (Some (take 2 sample_activities)) [''a'', ''b'', ''c'', ''d'', ''e'']) =
     Some [[''a''], [''b'', ''c'']]"
    using activity_images_slicing[where files = "[''a'', ''b'', ''c'', ''d'', ''e'']"
        and acts = "take 2 sample_activities" and patches = None and stored_acts = "[]" and idx = 0
        and ps = sample_patches and imgs = "[''x'', ''y'']"]
      pos by (simp add: cs sl)
  have 2: "declared_images (Some sample_patches) 0 = [''x'', ''y'']"
    using activity_images_slicing[where files = "[]" and acts = "[]" and patches = None
        and stored_acts = "[]" and idx = 0 and ps = sample_patches and imgs = "[''x'', ''y'']"] p
    by simp
  have 3: "declared_images (Some sample_patches) 1 = []"
    using activity_images_slicing[where files = "[]" and acts = "[]" and patches = None
        and stored_acts = "[]" and idx = 1 and ps = sample_patches and imgs = "[]"] p
    by simp
  have 4: "declared_images (Some sample_patches) 2 = []"
    using activity_images_slicing[where files = "[]" and acts = "[]" and patches = None
        and stored_acts = "[]" and idx = 2 and ps = sample_patches and imgs = "[]"] p
    by simp
  have len: "[0..<length sample_activities] = [0, 1, 2]"
    by (simp add: sample_activities_def upt_rec)
  have ss: "spec_slices [2, 0, 0] [''f1'', ''f2'', ''f3''] = [[''f1'', ''f2''], [], []]"
    by code_simp
  have ex: "map act_images sample_activities = [[], [], []]"
    by (simp add: sample_activities_def)
  have 5: "map act_images (merge_activities 0 (Some sample_patches) [''f1'', ''f2'', ''f3''] sample_activities) =
     [[''f1'', ''f2''], [], []]"
    using activity_images_slicing[where files = "[''f1'', ''f2'', ''f3'']" and acts = "[]"
        and patches = "Some sample_patches" and stored_acts = sample_activities and idx = 0
        and ps = sample_patches and imgs = "[''x'', ''y'']"]
    using 3 by (simp add: len 2 4 ss ex)
  from pos 1 2 3 4 5 show ?thesis by blast
qed

text \<open>
  The claim as the specification states it fails on update: the stored activity for
  which the request declares nothing takes no file from the batch, where a count that
  defaults to 1 would give it the uploaded file.
\<close>

theorem update_activity_default_counterexample:
  "activities_field sample_package_request = None \<and>
   map act_images (upd_activities (the (stored (update_package [''p1'' \<mapsto> sample_package] ''p1'' sample_package_request)))) =
     [[''https://res.cloudinary.com/demo/image/upload/destinations/act0.png'']] \<and>
   map2 (@) (map act_images (pkg_activities sample_package))
     (spec_slices [spec_count None] (activity_files sample_package_request)) =
     [[''https://res.cloudinary.com/demo/image/upload/destinations/act0.png'',
       ''https://res.cloudinary.com/demo/image/upload/v18/destinations/new1.jpg'']]"
  by (simp add: update_package_def sample_package_def sample_package_request_def
      declared_images_def spec_count_def)


section \<open>Deleting a record and its remote assets\<close>

lemma destroyed_map_Destroy: "destroyed (map Destroy ids @ cs) = ids @ destroyed cs"
  by (induction ids) simp_all

text \<open>
  C3, as the code has it. For a record that exists, each delete handler looks the record
  up and gives the asset host the identifiers extracted from the record's image URLs
  (those that yield one). When none of these deletions rejects (a deletion that reports
  an unknown asset resolves), the record is then deleted from the collection and the
  status is 200; in particular a record without an extractable identifier is removed
  with no remote call. When one of them rejects, the status is 500, the store is not
  asked to delete and the record stays in the collection.
\<close>

theorem delete_outcomes:
  "(packages pid = Some pkg \<longrightarrow>
      destroyed (del_calls (delete_package destroy packages pid)) =
        filter_Boolean (package_publicIds pkg) \<and>
      delete_package destroy packages pid =
        (if list_ex (\<lambda>i. destroy i = Rejected) (filter_Boolean (package_publicIds pkg))
         then \<lparr>del_status = 500, collection = packages,
               del_calls = FindById pid # map Destroy (filter_Boolean (package_publicIds pkg))\<rparr>
         else \<lparr>del_status = 200, collection = packages(pid := None),
               del_calls = FindById pid # map Destroy (filter_Boolean (package_publicIds pkg))
                 @ [FindByIdAndDelete pid]\<rparr>)) \<and>
   (hotels hid = Some images \<longrightarrow>
      delete_hotel destroy hotels hid =
        (if list_ex (\<lambda>i. destroy i = Rejected) (filter_Boolean (map getPublicId images))
         then \<lparr>del_status = 500, collection = hotels,
               del_calls = FindById hid # map Destroy (filter_Boolean (map getPublicId images))\<rparr>
         else \<lparr>del_status = 200, collection = hotels(hid := None),
               del_calls = FindById hid # map Destroy (filter_Boolean (map getPublicId images))
                 @ [FindByIdAndDelete hid]\<rparr>)) \<and>
   (visas vid = Some url \<and> single_publicId url = Some publicId \<longrightarrow>
      delete_visa destroy visas vid =
        (if destroy publicId = Rejected
         then \<lparr>del_status = 500, collection = visas, del_calls = [FindById vid, Destroy publicId]\<rparr>
         else \<lparr>del_status = 200, collection = visas(vid := None),
               del_calls = [FindById vid, Destroy publicId, FindByIdAndDelete vid]\<rparr>) \<and>
      delete_flight destroy visas vid = delete_visa destroy visas vid) \<and>
   (visas vid = Some url \<and> single_publicId url = None \<longrightarrow>
      delete_visa destroy visas vid =
        \<lparr>del_status = 200, collection = visas(vid := None),
         del_calls = [FindById vid, FindByIdAndDelete vid]\<rparr> \<and>
      delete_flight destroy visas vid = delete_visa destroy visas vid)"
  using destroyed_map_Destroy[of "filter_Boolean (package_publicIds pkg)" "[]"]
    destroyed_map_Destroy[of "filter_Boolean (package_publicIds pkg)" "[FindByIdAndDelete pid]"]
  by (simp add: delete_package_def delete_hotel_def delete_visa_def delete_flight_def
      delete_single_def Let_def)

theorem delete_outcomes_witness:
  "single_publicId (Some ''https://res.cloudinary.com/demo/image/upload/v17/destinations/visa1.jpg'') =
     Some ''destinations/visa1'' \<and>
   delete_visa unknown_destroy sample_visas ''visa1'' =
     \<lparr>del_status = 200, collection = sample_visas(''visa1'' := None),
      del_calls = [FindById ''visa1'', Destroy ''destinations/visa1'', FindByIdAndDelete ''visa1'']\<rparr> \<and>
   single_publicId (Some ''https://example.com/visa2.jpg'') = None \<and>
   delete_visa rejecting_destroy sample_visas ''visa2'' =
     \<lparr>del_status = 200, collection = sample_visas(''visa2'' := None),
      del_calls = [FindById ''visa2'', FindByIdAndDelete ''visa2'']\<rparr> \<and>
   filter_Boolean (package_publicIds sample_package) =
     [''destinations/thumb'', ''destinations/main1'', ''destinations/act0''] \<and>
   delete_package rejecting_destroy [''p1'' \<mapsto> sample_package] ''p1'' =
     \<lparr>del_status = 500, collection = [''p1'' \<mapsto> sample_package],
      del_calls = [FindById ''p1'', Destroy ''destinations/thumb'', Destroy ''destinations/main1'',
                   Destroy ''destinations/act0'']\<rparr> \<and>
   delete_hotel unknown_destroy [''h1'' \<mapsto> [''https://example.com/h.jpg'']] ''h1'' =
     \<lparr>del_status = 200, collection = [''h1'' \<mapsto> [''https://example.com/h.jpg'']](''h1'' := None),
      del_calls = [FindById ''h1'', FindByIdAndDelete ''h1'']\<rparr>"
proof -
  let ?u1 = "''https://res.cloudinary.com/demo/image/upload/v17/destinations/visa1.jpg''"
  let ?u2 = "''https://example.com/visa2.jpg''"
  have g1: "getPublicId ?u1 = Some ''destinations/visa1''" by code_simp
  have g2: "getPublicId ?u2 = None" by code_simp
  have s1: "single_publicId (Some ?u1) = Some ''destinations/visa1''"
    by (simp add: single_publicId_def present_def g1)
  have s2: "single_publicId (Some ?u2) = None"
    by (simp add: single_publicId_def present_def g2)
  have v1: "sample_visas ''visa1'' = Some (Some ?u1)" and v2: "sample_visas ''visa2'' = Some (Some ?u2)"
    by (simp_all add: sample_visas_def)
  have ids: "filter_Boolean (package_publicIds sample_package) =
      [''destinations/thumb'', ''destinations/main1'', ''destinations/act0'']"
  proof -
    have "getPublicId ''https://res.cloudinary.com/demo/image/upload/v17/destinations/thumb.jpg'' =
        Some ''destinations/thumb''" by code_simp
    moreover have "getPublicId ''https://res.cloudinary.com/demo/image/upload/v17/destinations/main1.jpg'' =
        Some ''destinations/main1''" by code_simp
    moreover have "getPublicId ''https://res.cloudinary.com/demo/image/upload/destinations/act0.png'' =
        Some ''destinations/act0''" by code_simp
    ultimately show ?thesis
      by (simp add: package_publicIds_def sample_package_def filter_Boolean_def present_def)
  qed
  have h: "getPublicId ''https://example.com/h.jpg'' = None" by code_simp
  have 1: "delete_visa unknown_destroy sample_visas ''visa1'' =
     \<lparr>del_status = 200, collection = sample_visas(''visa1'' := None),
      del_calls = [FindById ''visa1'', Destroy ''destinations/visa1'', FindByIdAndDelete ''visa1'']\<rparr>"
    using delete_outcomes[where visas = sample_visas and vid = "''visa1''" and url = "Some ?u1"
        and publicId = "''destinations/visa1''" and destroy = unknown_destroy
        and packages = "[''p1'' \<mapsto> sample_package]" and pid = "''p1''" and pkg = sample_package
        and hotels = "[''h1'' \<mapsto> [''https://example.com/h.jpg'']]" and hid = "''h1''"
        and images = "[''https://example.com/h.jpg'']"] v1 s1
    by (simp add: unknown_destroy_def)
  have 2: "delete_visa rejecting_destroy sample_visas ''visa2'' =
     \<lparr>del_status = 200, collection = sample_visas(''visa2'' := None),
      del_calls = [FindById ''visa2'', FindByIdAndDelete ''visa2'']\<rparr>"
    using delete_outcomes[where visas = sample_visas and vid = "''visa2''" and url = "Some ?u2"
        and publicId = "''x''" and destroy = rejecting_destroy
        and packages = "[''p1'' \<mapsto> sample_package]" and pid = "''p1''" and pkg = sample_package
        and hotels = "[''h1'' \<mapsto> [''https://example.com/h.jpg'']]" and hid = "''h1''"
        and images = "[''https://example.com/h.jpg'']"] v2 s2
    by simp
  have 3: "delete_package rejecting_destroy [''p1'' \<mapsto> sample_package] ''p1'' =
     \<lparr>del_status = 500, collection = [''p1'' \<mapsto> sample_package],
      del_calls = [FindById ''p1'', Destroy ''destinations/thumb'', Destroy ''destinations/main1'',
                   Destroy ''destinations/act0'']\<rparr>"
    using delete_outcomes[where visas = sample_visas and vid = "''visa2''" and url = "Some ?u2"
        and publicId = "''x''" and destroy = rejecting_destroy
        and packages = "[''p1'' \<mapsto> sample_package]" and pid = "''p1''" and pkg = sample_package
        and hotels = "[''h1'' \<mapsto> [''https://example.com/h.jpg'']]" and hid = "''h1''"
        and images = "[''https://example.com/h.jpg'']"]
    by (simp add: ids rejecting_destroy_def)
  have 4: "delete_hotel unknown_destroy [''h1'' \<mapsto> [''https://example.com/h.jpg'']] ''h1'' =
     \<lparr>del_status = 200, collection = [''h1'' \<mapsto> [''https://example.com/h.jpg'']](''h1'' := None),
      del_calls = [FindById ''h1'', FindByIdAndDelete ''h1'']\<rparr>"
    using delete_outcomes[where visas = sample_visas and vid = "''visa2''" and url = "Some ?u2"
        and publicId = "''x''" and destroy = unknown_destroy
        and packages = "[''p1'' \<mapsto> sample_package]" and pid = "''p1''" and pkg = sample_package
        and hotels = "[''h1'' \<mapsto> [''https://example.com/h.jpg'']]" and hid = "''h1''"
        and images = "[''https://example.com/h.jpg'']"]
    by (simp add: h filter_Boolean_def present_def)
  from s1 1 s2 2 ids 3 4 show ?thesis by blast
qed

text \<open>
  The claim as the specification states it fails: when the deletion of a visa's image
  rejects, the status is 500, the store is not asked to delete the visa and the visa is
  still in the collection.
\<close>

theorem delete_visa_rejected_counterexample:
  "rejecting_destroy ''destinations/visa1'' = Rejected \<and>
   del_calls (delete_visa rejecting_destroy sample_visas ''visa1'') =
     [FindById ''visa1'', Destroy ''destinations/visa1''] \<and>
   del_status (delete_visa rejecting_destroy sample_visas ''visa1'') = 500 \<and>
   collection (delete_visa rejecting_destroy sample_visas ''visa1'') ''visa1'' =
     Some (Some ''https://res.cloudinary.com/demo/image/upload/v17/destinations/visa1.jpg'')"
proof -
  have g: "getPublicId ''https://res.cloudinary.com/demo/image/upload/v17/destinations/visa1.jpg'' =
      Some ''destinations/visa1''" by code_simp
  show ?thesis
    by (simp add: delete_visa_def delete_single_def single_publicId_def present_def g
        sample_visas_def rejecting_destroy_def)
qed


section \<open>Image sets on update\<close>






end
